theory Spec2Isabelle
  imports Main "HOL-Library.Word"
begin

unbundle bit_operations_syntax

section \<open>Bytes\<close>

type_synonym byte = "8 word"
type_synonym bytes = "byte list"

text \<open>
  Go panics are kept apart from returned errors: a function that can panic returns
  \<open>panic + 'a\<close>, and a returned \<open>error\<close> value is an \<open>err option\<close> inside the result
  (\<open>None\<close> is Go's \<open>nil\<close>).
\<close>

datatype panic = Panic string

datatype err = NotSeeded | SeedTooShort

section \<open>counter.go\<close>

text \<open>
  \<open>type counter []byte\<close>. The first loop of \<open>incr\<close> adds one to byte \<open>i\<close> (a wrapping
  byte addition) and returns as soon as the byte is not zero; \<open>incr_loop\<close> returns the
  slice and whether that early return was taken.
\<close>

function incr_loop :: "nat \<Rightarrow> bytes \<Rightarrow> bytes \<times> bool" where
  "incr_loop i c =
     (if i < length c then
        (let c' = c[i := c ! i + 1]
         in if c' ! i \<noteq> 0 then (c', True) else incr_loop (Suc i) c')
      else (c, False))"
  by pat_completeness auto
termination
  by (relation "measure (\<lambda>(i, c). length c - i)") auto

declare incr_loop.simps [simp del]

definition incr :: "bytes \<Rightarrow> bytes" where
  "incr c =
     (case incr_loop 0 c of
        (c', True) \<Rightarrow> c'
      | (c', False) \<Rightarrow> map (\<lambda>_. 0) c')"

text \<open>The value of a byte slice read as a little-endian natural number.\<close>

fun le_val :: "bytes \<Rightarrow> nat" where
  "le_val [] = 0"
| "le_val (b # bs) = unat b + 256 * le_val bs"


section \<open>Library primitives: slices, hash.Hash, crypto/aes\<close>

text \<open>
  Go's builtin \<open>copy(dst, src)\<close> overwrites the first \<open>min (len dst) (len src)\<close> bytes of
  \<open>dst\<close>; the model returns the new contents of \<open>dst\<close>.
\<close>

definition copy :: "bytes \<Rightarrow> bytes \<Rightarrow> bytes" where
  "copy dst src = take (length dst) src @ drop (length src) dst"

text \<open>\<open>fit n xs\<close> is \<open>xs\<close> cut or zero-padded to exactly \<open>n\<close> bytes.\<close>

definition fit :: "nat \<Rightarrow> bytes \<Rightarrow> bytes" where
  "fit n xs = take n (xs @ replicate n 0)"

text \<open>
  A \<open>hash.Hash\<close> handle: the hash function itself (\<open>hfun\<close>, a parameter of the model: the
  package never looks inside SHA-256, SHA-1 or MD5), its \<open>Size()\<close> and \<open>BlockSize()\<close>, and
  the bytes written since the last \<open>Reset\<close>. The interface contract is built in:
  \<open>Write\<close> consumes all of its input and never returns an error, and \<open>Sum\<close> appends
  exactly \<open>Size()\<close> bytes to its argument without changing the state.
\<close>

record hash =
  hfun :: "bytes \<Rightarrow> bytes"
  Size :: nat
  BlockSize :: nat
  written :: bytes

definition hash_of :: "hash \<Rightarrow> bytes \<Rightarrow> bytes" where
  "hash_of H m = fit (Size H) (hfun H m)"

definition hash_Reset :: "hash \<Rightarrow> hash" where
  "hash_Reset H = H\<lparr>written := []\<rparr>"

definition hash_Write :: "hash \<Rightarrow> bytes \<Rightarrow> hash \<times> nat \<times> err option" where
  "hash_Write H p = (H\<lparr>written := written H @ p\<rparr>, length p, None)"

definition hash_Sum :: "hash \<Rightarrow> bytes \<Rightarrow> bytes" where
  "hash_Sum H b = b @ hash_of H (written H)"

definition sha256_New :: "(bytes \<Rightarrow> bytes) \<Rightarrow> hash" where
  "sha256_New sha256 = \<lparr>hfun = sha256, Size = 32, BlockSize = 64, written = []\<rparr>"

definition sha1_New :: "(bytes \<Rightarrow> bytes) \<Rightarrow> hash" where
  "sha1_New sha1 = \<lparr>hfun = sha1, Size = 20, BlockSize = 64, written = []\<rparr>"

text \<open>
  \<open>crypto/aes\<close>. The block function (key, 16-byte block to 16-byte block) is a parameter
  of the model. \<open>aes.NewCipher\<close> returns a \<open>KeySizeError\<close> (here \<open>None\<close>) unless the key
  has 16, 24 or 32 bytes. \<open>Encrypt(dst, src)\<close> panics unless both slices hold a full
  block, and overwrites the first 16 bytes of \<open>dst\<close>; the model returns the new \<open>dst\<close>.
\<close>

type_synonym block_fn = "bytes \<Rightarrow> bytes \<Rightarrow> bytes"
type_synonym cipher = "bytes \<Rightarrow> bytes"

definition aes_BlockSize :: nat where
  "aes_BlockSize = 16"

definition aes_NewCipher :: "block_fn \<Rightarrow> bytes \<Rightarrow> cipher option" where
  "aes_NewCipher aes k =
     (if length k = 16 \<or> length k = 24 \<or> length k = 32
      then Some (\<lambda>blk. fit aes_BlockSize (aes k blk)) else None)"

definition Encrypt :: "cipher \<Rightarrow> bytes \<Rightarrow> bytes \<Rightarrow> panic + bytes" where
  "Encrypt c dst src =
     (if length src < aes_BlockSize then Inl (Panic ''crypto/aes: input not full block'')
      else if length dst < aes_BlockSize then Inl (Panic ''crypto/aes: output not full block'')
      else Inr (c (take aes_BlockSize src) @ drop aes_BlockSize dst))"

section \<open>double\_hash.go\<close>

definition zeros :: bytes where
  "zeros = replicate 256 0"

text \<open>The loop \<open>for _, i := range data\<close> of \<open>DoubleHash\<close>.\<close>

fun DoubleHash_loop :: "hash \<Rightarrow> bytes list \<Rightarrow> panic + hash" where
  "DoubleHash_loop H [] = Inr H"
| "DoubleHash_loop H (i # data) =
     (case hash_Write H i of
        (H', l, e) \<Rightarrow>
          if l \<noteq> length i \<or> e \<noteq> None then Inl (Panic ''Unexpected hash write failure'')
          else DoubleHash_loop H' data)"

text \<open>
  \<open>DoubleHash\<close> returns the digest and the handle as the call leaves it (the handle is
  mutated through the interface). \<open>zeros[:b]\<close> is a slice of a 256-byte array, so a
  block size above 256 is a run-time panic.
\<close>

definition DoubleHash :: "hash \<Rightarrow> bytes list \<Rightarrow> panic + (bytes \<times> hash)" where
  "DoubleHash H0 data =
     (let H1 = hash_Reset H0; b = BlockSize H1 in
      if b > length zeros then Inl (Panic ''slice bounds out of range'')
      else case hash_Write H1 (take b zeros) of
        (H2, l, e) \<Rightarrow>
          if l \<noteq> b \<or> e \<noteq> None then Inl (Panic ''Unexpected hash write failure'')
          else
            (case DoubleHash_loop H2 data of
               Inl p \<Rightarrow> Inl p
             | Inr H3 \<Rightarrow>
                 (let dst = hash_Sum H3 []; H4 = hash_Reset H3 in
                  case hash_Write H4 dst of
                    (H5, l', e') \<Rightarrow>
                      if l' \<noteq> length dst \<or> e' \<noteq> None
                      then Inl (Panic ''Unexpected hash write failure'')
                      else Inr (hash_Sum H5 [], H5))))"

section \<open>generator.go\<close>

text \<open>
  The \<open>generator\<close> struct without its mutex: every operation below is one critical
  section. Lengths and \<open>maxBytesPerRequest\<close> are natural numbers (Go \<open>int\<close>s that are
  bounded by the size of an allocated slice).
\<close>

record generator =
  key :: bytes
  counter :: bytes
  maxBytesPerRequest :: nat
  initialized :: bool
  temp :: bytes
  h :: hash

definition generator_Write :: "generator \<Rightarrow> bytes \<Rightarrow> panic + (generator \<times> nat \<times> err option)" where
  "generator_Write g data =
     (case DoubleHash (h g) [key g, data] of
        Inl p \<Rightarrow> Inl p
      | Inr (k, H) \<Rightarrow>
          Inr (g\<lparr>key := k, counter := incr (counter g), initialized := True, h := H\<rparr>,
               length data, None))"

definition newGenerator :: "(bytes \<Rightarrow> bytes) \<Rightarrow> hash option \<Rightarrow> bytes \<Rightarrow> panic + generator" where
  "newGenerator sha256 hopt seed =
     (let H = (case hopt of None \<Rightarrow> sha256_New sha256 | Some H' \<Rightarrow> H');
          b = Size H;
          g = \<lparr>key = replicate b 0, counter = replicate 16 0,
               maxBytesPerRequest = 2 ^ 15 * b, initialized = False,
               temp = replicate b 0, h = H\<rparr>
      in if length seed \<noteq> 0
         then (case generator_Write g seed of Inl p \<Rightarrow> Inl p | Inr (g', _) \<Rightarrow> Inr g')
         else Inr g)"

text \<open>
  The first loop of \<open>generateBlocks\<close>: block \<open>i\<close> of \<open>out\<close> is overwritten with the
  encryption of the counter, and the counter is incremented.
\<close>

function generateBlocks_loop ::
  "cipher \<Rightarrow> nat \<Rightarrow> nat \<Rightarrow> bytes \<Rightarrow> generator \<Rightarrow> panic + (bytes \<times> generator)" where
  "generateBlocks_loop c fullBlocks i out g =
     (if i < fullBlocks then
        (let s = aes_BlockSize; b = i * s in
         case Encrypt c (take s (drop b out)) (counter g) of
           Inl p \<Rightarrow> Inl p
         | Inr blk \<Rightarrow>
             generateBlocks_loop c fullBlocks (Suc i)
               (take b out @ blk @ drop (b + s) out)
               (g\<lparr>counter := incr (counter g)\<rparr>))
      else Inr (out, g))"
  by pat_completeness auto
termination
  by (relation "measure (\<lambda>(c, fullBlocks, i, out, g). fullBlocks - i)") auto

declare generateBlocks_loop.simps [simp del]

definition generateBlocks :: "cipher \<Rightarrow> bytes \<Rightarrow> generator \<Rightarrow> panic + (bytes \<times> generator)" where
  "generateBlocks c out g =
     (let s = aes_BlockSize; fullBlocks = length out div s in
      case generateBlocks_loop c fullBlocks 0 out g of
        Inl p \<Rightarrow> Inl p
      | Inr (out1, g1) \<Rightarrow>
          if length out1 mod s \<noteq> 0 then
            (case Encrypt c (temp g1) (counter g1) of
               Inl p \<Rightarrow> Inl p
             | Inr t \<Rightarrow>
                 Inr (take (fullBlocks * s) out1 @ copy (drop (fullBlocks * s) out1) t,
                      g1\<lparr>temp := t, counter := incr (counter g1)\<rparr>))
          else Inr (out1, g1))"

text \<open>
  \<open>Read\<close> returns the state, the caller's buffer as it is left, and Go's \<open>(n, err)\<close>.
  The second \<open>generateBlocks\<close> writes into the key slice itself; the cipher was built
  from the old key.
\<close>

definition generator_Read ::
  "block_fn \<Rightarrow> generator \<Rightarrow> bytes \<Rightarrow> panic + (generator \<times> bytes \<times> nat \<times> err option)" where
  "generator_Read aes g data =
     (if \<not> initialized g then Inr (g, data, 0, Some NotSeeded)
      else
        (let n = (if length data > maxBytesPerRequest g then maxBytesPerRequest g
                  else length data)
         in case aes_NewCipher aes (key g) of
              None \<Rightarrow> Inl (Panic ''crypto/aes: invalid key size'')
            | Some c \<Rightarrow>
                (case generateBlocks c (take n data) g of
                   Inl p \<Rightarrow> Inl p
                 | Inr (out, g1) \<Rightarrow>
                     (case generateBlocks c (key g1) g1 of
                        Inl p \<Rightarrow> Inl p
                      | Inr (k, g2) \<Rightarrow>
                          Inr (g2\<lparr>key := k\<rparr>, out @ drop n data, n, None)))))"

section \<open>fortuna.go\<close>

definition numPools :: nat where
  "numPools = 32"

definition minPoolSize :: nat where
  "minPoolSize = 64"

text \<open>\<open>countedHash\<close>: a hash handle and the number of bytes written since the last reset.\<close>

record countedHash =
  Hash :: hash
  length' :: nat

definition countedHash_Write :: "countedHash \<Rightarrow> bytes \<Rightarrow> countedHash \<times> nat \<times> err option" where
  "countedHash_Write p data =
     (case hash_Write (Hash p) data of
        (H, r) \<Rightarrow> (p\<lparr>length' := length' p + length data, Hash := H\<rparr>, r))"

definition countedHash_Reset :: "countedHash \<Rightarrow> countedHash" where
  "countedHash_Reset p = p\<lparr>Hash := hash_Reset (Hash p), length' := 0\<rparr>"

text \<open>
  The \<open>accumulator\<close> struct without its mutex. \<open>numReseed\<close> is a Go \<open>int\<close> (64 bits, two's
  complement); \<open>lastReseed\<close> is a time in nanoseconds; \<open>pools\<close> is the array of \<open>numPools\<close>
  pools. The scratch array \<open>temp\<close> only saves an allocation in \<open>reseed\<close> and is never
  read, so it is left out. \<open>inflight\<close> holds the framed buffers of the goroutines that
  \<open>AddRandomEvent\<close> has started and that have not taken the lock yet, oldest first.
\<close>

record accumulator =
  numReseed :: "64 word"
  nextPool :: nat
  lastReseed :: int
  generator :: generator
  pools :: "countedHash list"
  inflight :: "bytes list"

text \<open>
  The loop of \<open>reseed\<close>: \<open>for i := 0; i < numPools && a.numReseed&mask == 0; i++\<close>, with the
  seed slice built so far.
\<close>

function reseed_loop :: "nat \<Rightarrow> 64 word \<Rightarrow> bytes \<Rightarrow> accumulator \<Rightarrow> bytes \<times> accumulator" where
  "reseed_loop i mask' seed a =
     (if i < numPools \<and> numReseed a AND mask' = 0 then
        reseed_loop (Suc i) (push_bit 1 mask' OR 1)
          (hash_Sum (Hash (pools a ! i)) seed)
          (a\<lparr>pools := (pools a)[i := countedHash_Reset (pools a ! i)]\<rparr>)
      else (seed, a))"
  by pat_completeness auto
termination
  by (relation "measure (\<lambda>(i, mask', seed, a). numPools - i)") auto

declare reseed_loop.simps [simp del]

definition reseed :: "accumulator \<Rightarrow> int \<Rightarrow> panic + accumulator" where
  "reseed a now =
     (let a1 = a\<lparr>lastReseed := now, numReseed := numReseed a + 1\<rparr> in
      case reseed_loop 0 0 [] a1 of
        (seed, a2) \<Rightarrow>
          (case generator_Write (generator a2) seed of
             Inl p \<Rightarrow> Inl p
           | Inr (g, _) \<Rightarrow> Inr (a2\<lparr>generator := g\<rparr>)))"

text \<open>
  \<open>AddRandomEvent\<close> frames the event and starts a goroutine that will write the frame
  to the next pool; \<open>deliver k\<close> is the body of the goroutine that holds the \<open>k\<close>-th
  frame still in flight.
\<close>

definition AddRandomEvent :: "(bytes \<Rightarrow> bytes) \<Rightarrow> accumulator \<Rightarrow> byte \<Rightarrow> bytes \<Rightarrow> accumulator" where
  "AddRandomEvent sha1 a source data =
     (let buffer =
            (if length data > 32
             then hash_Sum (fst (hash_Write (sha1_New sha1) data)) [0, 0]
             else [0, 0] @ data);
          buffer = buffer[0 := source];
          buffer = buffer[1 := of_nat (length data)]
      in a\<lparr>inflight := inflight a @ [buffer]\<rparr>)"

definition deliver :: "accumulator \<Rightarrow> nat \<Rightarrow> accumulator" where
  "deliver a k =
     (if k < length (inflight a) then
        a\<lparr>pools := (pools a)[nextPool a :=
              fst (countedHash_Write (pools a ! nextPool a) (inflight a ! k))],
          nextPool := (nextPool a + 1) mod numPools,
          inflight := take k (inflight a) @ drop (Suc k) (inflight a)\<rparr>
      else a)"

text \<open>The loop \<open>for i := 1; i < numPools; i++\<close> of \<open>NewFortuna\<close>.\<close>

function NewFortuna_loop :: "(bytes \<Rightarrow> bytes) \<Rightarrow> nat \<Rightarrow> bytes \<Rightarrow> accumulator \<Rightarrow> accumulator" where
  "NewFortuna_loop sha1 i seed a =
     (if i < numPools then
        (let remaining = numPools - i;
             perPool = (length seed + remaining - 1) div remaining
         in NewFortuna_loop sha1 (Suc i) (drop perPool seed)
              (AddRandomEvent sha1 a (of_nat i) (take perPool seed)))
      else a)"
  by pat_completeness auto
termination
  by (relation "measure (\<lambda>(sha1, i, seed, a). numPools - i)") auto

declare NewFortuna_loop.simps [simp del]

text \<open>
  \<open>NewFortuna\<close> returns Go's \<open>(Fortuna, error)\<close> as a sum. \<open>now\<close> is the value of
  \<open>time.Now()\<close>. The goroutines started by the 32 calls of \<open>AddRandomEvent\<close> race with the
  final \<open>a.lock.Lock()\<close>: \<open>sched\<close> lists, in the order in which they took the lock before
  the constructor did, the positions of their frames among those still in flight; the
  frames of the others stay in \<open>inflight\<close>.
\<close>

definition NewFortuna ::
  "(bytes \<Rightarrow> bytes) \<Rightarrow> (bytes \<Rightarrow> bytes) \<Rightarrow> int \<Rightarrow> nat list \<Rightarrow> bytes \<Rightarrow> panic + (err + accumulator)" where
  "NewFortuna sha256 sha1 now sched seed =
     (if length seed < 2 * minPoolSize then Inr (Inl SeedTooShort)
      else case newGenerator sha256 None [] of
        Inl p \<Rightarrow> Inl p
      | Inr g \<Rightarrow>
          (let a = \<lparr>numReseed = 0, nextPool = 0, lastReseed = 0, generator = g,
                    pools = replicate numPools \<lparr>Hash = sha256_New sha256, length' = 0\<rparr>,
                    inflight = []\<rparr>;
               pool0 = replicate minPoolSize 0;
               pool0 = take 16 pool0 @ copy (drop 16 pool0) seed;
               a = AddRandomEvent sha1 a 0 pool0;
               seed = drop (minPoolSize + 16) seed;
               a = NewFortuna_loop sha1 1 seed a;
               a = foldl deliver a sched
           in case reseed a now of
                Inl p \<Rightarrow> Inl p
              | Inr a' \<Rightarrow> Inr (Inr a')))"

section \<open>Specification-level notions\<close>

text \<open>
  What every generator built by \<open>newGenerator\<close> satisfies, and \<open>Write\<close> and \<open>Read\<close>
  keep: the key and the scratch block have the hash's output size, the counter has 16
  bytes, and the request limit is \<open>2^15\<close> times the output size.
\<close>

definition generator_inv :: "generator \<Rightarrow> bool" where
  "generator_inv g \<longleftrightarrow>
     length (key g) = Size (h g) \<and> length (counter g) = 16 \<and>
     length (temp g) = Size (h g) \<and> maxBytesPerRequest g = 2 ^ 15 * Size (h g)"

text \<open>
  \<open>keystream c ctr n\<close>: the encryptions under cipher \<open>c\<close> of the \<open>n\<close> successive counter
  values starting at \<open>ctr\<close>, concatenated.
\<close>

fun keystream :: "cipher \<Rightarrow> bytes \<Rightarrow> nat \<Rightarrow> bytes" where
  "keystream c ctr 0 = []"
| "keystream c ctr (Suc n) = c (take aes_BlockSize ctr) @ keystream c (incr ctr) n"

text \<open>
  The harness of \<open>TestGeneratorDeterminism\<close>: one \<open>Read\<close> into a fresh buffer
  \<open>make([]byte, n)\<close> for each requested length, collecting the buffer and the result
  of every call.
\<close>

fun read_trace ::
  "block_fn \<Rightarrow> generator \<Rightarrow> nat list \<Rightarrow> panic + (bytes \<times> nat \<times> err option) list" where
  "read_trace aes g [] = Inr []"
| "read_trace aes g (n # ns) =
     (case generator_Read aes g (replicate n 0) of
        Inl p \<Rightarrow> Inl p
      | Inr (g', r) \<Rightarrow>
          (case read_trace aes g' ns of
             Inl p \<Rightarrow> Inl p
           | Inr rs \<Rightarrow> Inr (r # rs)))"

text \<open>
  The two ways of seeding that the test compares: \<open>NewGenerator(h, seed)\<close>, and
  \<open>NewGenerator(h, nil)\<close> followed by \<open>Write(seed)\<close>.
\<close>

definition trace_constructor_seeded ::
  "(bytes \<Rightarrow> bytes) \<Rightarrow> block_fn \<Rightarrow> hash option \<Rightarrow> bytes \<Rightarrow> nat list
     \<Rightarrow> panic + (bytes \<times> nat \<times> err option) list" where
  "trace_constructor_seeded sha256 aes hopt seed ns =
     (case newGenerator sha256 hopt seed of
        Inl p \<Rightarrow> Inl p
      | Inr g \<Rightarrow> read_trace aes g ns)"

definition trace_Write_seeded ::
  "(bytes \<Rightarrow> bytes) \<Rightarrow> block_fn \<Rightarrow> hash option \<Rightarrow> bytes \<Rightarrow> nat list
     \<Rightarrow> panic + (bytes \<times> nat \<times> err option) list" where
  "trace_Write_seeded sha256 aes hopt seed ns =
     (case newGenerator sha256 hopt [] of
        Inl p \<Rightarrow> Inl p
      | Inr g \<Rightarrow>
          (case generator_Write g seed of
             Inl p \<Rightarrow> Inl p
           | Inr (g', _) \<Rightarrow> read_trace aes g' ns))"

section \<open>Stand-ins for the primitives\<close>

text \<open>
  Small functions in the place of SHA-256, SHA-1 and AES, to run the model on concrete
  inputs. No statement below depends on what they compute.
\<close>

definition sum_hash :: "bytes \<Rightarrow> bytes" where
  "sum_hash m = [of_nat (length m), sum_list m]"

definition xor_cipher :: block_fn where
  "xor_cipher k blk = map2 (XOR) (take 16 k) blk"

text \<open>A hash handle whose block is longer than the table of zeros of \<open>DoubleHash\<close>.\<close>

definition big_block_hash :: hash where
  "big_block_hash = \<lparr>hfun = sum_hash, Size = 32, BlockSize = 257, written = []\<rparr>"

text \<open>
  The states of \<open>newGenerator(nil, nil)\<close> and of \<open>newGenerator(nil, []byte{0})\<close> over
  the stand-in hash, and the state of \<open>newGenerator(big_block_hash, nil)\<close>.
\<close>

definition unseeded_generator :: generator where
  "unseeded_generator =
     \<lparr>key = replicate 32 0, counter = replicate 16 0, maxBytesPerRequest = 2 ^ 15 * 32,
      initialized = False, temp = replicate 32 0, h = sha256_New sum_hash\<rparr>"

definition seeded_generator :: generator where
  "seeded_generator =
     \<lparr>key = [32, 97] @ replicate 30 0, counter = 1 # replicate 15 0,
      maxBytesPerRequest = 2 ^ 15 * 32, initialized = True, temp = replicate 32 0,
      h = (sha256_New sum_hash)\<lparr>written := [97, 0] @ replicate 30 0\<rparr>\<rparr>"

definition big_block_generator :: generator where
  "big_block_generator =
     \<lparr>key = replicate 32 0, counter = replicate 16 0, maxBytesPerRequest = 2 ^ 15 * 32,
      initialized = False, temp = replicate 32 0, h = big_block_hash\<rparr>"

section \<open>The counter\<close>

lemma unat_byte_lt: "unat (b :: byte) < 256"
  using unsigned_less [of b, where ?'a = nat] by simp

lemma le_val_bound: "le_val c < 256 ^ length c"
proof (induction c)
  case Nil show ?case by simp
next
  case (Cons b bs)
  have "unat b < 256" by (rule unat_byte_lt)
  then show ?case using Cons by simp
qed

lemma byte_succ_nonzero: "(b :: byte) + 1 \<noteq> 0 \<Longrightarrow> unat (b + 1) = unat b + 1"
  by (simp add: add.commute unatSuc)

lemma byte_succ_zero: "(b :: byte) + 1 = 0 \<Longrightarrow> unat b = 255"
proof -
  assume a: "b + 1 = 0"
  have "unat (b + 1) = (unat b + 1) mod 256" by (simp add: unat_word_ariths)
  moreover have "unat b < 256" by (rule unat_byte_lt)
  moreover have "unat (b + 1) = 0" using a by simp
  ultimately show ?thesis by presburger
qed

lemma pair_unique:
  fixes a b x y :: nat
  assumes "x < 256" "y < 256" "x + 256 * a = y + 256 * b"
  shows "x = y \<and> a = b"
proof -
  have "(x + 256 * a) mod 256 = (y + 256 * b) mod 256" using assms(3) by simp
  then have "x = y" using assms(1,2) by simp
  then show ?thesis using assms(3) by simp
qed

lemma take_Suc_eq_imp:
  "take (Suc i) xs = take (Suc i) ys \<Longrightarrow> i < length xs \<Longrightarrow> i < length ys \<Longrightarrow> take i xs = take i ys \<and> xs ! i = ys ! i"
  by (simp add: take_Suc_conv_app_nth)

lemma incr_loop_spec:
  "i \<le> length c \<Longrightarrow> incr_loop i c = (c', r) \<Longrightarrow>
     length c' = length c \<and> take i c' = take i c \<and>
     (r \<longrightarrow> le_val (drop i c') = le_val (drop i c) + 1) \<and>
     (\<not> r \<longrightarrow> le_val (drop i c) + 1 = 256 ^ (length c - i))"
proof (induction i c arbitrary: c' r rule: incr_loop.induct)
  case (1 i c)
  show ?case
  proof (cases "i < length c")
    case False
    with "1.prems" show ?thesis by (simp add: incr_loop.simps)
  next
    case True
    define x where "x = c ! i + 1"
    define c1 where "c1 = c[i := x]"
    have dc: "drop i c = c ! i # drop (Suc i) c"
      using True by (simp add: Cons_nth_drop_Suc)
    have dc1: "drop i c1 = x # drop (Suc i) c"
      using True by (simp add: c1_def drop_update_swap Cons_nth_drop_Suc[symmetric] upd_conv_take_nth_drop)
    show ?thesis
    proof (cases "x = 0")
      case False
      then have "c' = c1" "r"
        using "1.prems"(2) True by (simp_all add: incr_loop.simps[of i c] c1_def x_def Let_def)
      moreover have "unat x = unat (c ! i) + 1"
        using False unfolding x_def by (rule byte_succ_nonzero)
      ultimately show ?thesis using True dc dc1 by (simp add: c1_def)
    next
      case x0: True
      then have rec: "incr_loop (Suc i) c1 = (c', r)"
        using "1.prems"(2) True by (simp add: incr_loop.simps[of i c] c1_def x_def Let_def)
      have c255: "unat (c ! i) = 255" using x0 unfolding x_def by (rule byte_succ_zero)
      have ih: "length c' = length c1 \<and> take (Suc i) c' = take (Suc i) c1 \<and>
         (r \<longrightarrow> le_val (drop (Suc i) c') = le_val (drop (Suc i) c1) + 1) \<and>
         (\<not> r \<longrightarrow> le_val (drop (Suc i) c1) + 1 = 256 ^ (length c1 - Suc i))"
        using "1.IH"[of c1 c' r] True x0 rec by (simp add: c1_def x_def)
      have len: "length c' = length c" using ih by (simp add: c1_def)
      have tk: "take i c' = take i c1 \<and> c' ! i = c1 ! i"
        using ih True len by (intro take_Suc_eq_imp) (simp_all add: c1_def)
      have c1i: "c1 ! i = 0" using True x0 by (simp add: c1_def)
      have dc': "drop i c' = 0 # drop (Suc i) c'"
        using True len tk c1i by (simp add: Cons_nth_drop_Suc[symmetric])
      have d1: "drop (Suc i) c1 = drop (Suc i) c" by (simp add: c1_def)
      have p: "(256::nat) ^ (length c - i) = 256 * 256 ^ (length c - Suc i)"
        using True by (metis Suc_diff_Suc power_Suc)
      show ?thesis using ih len tk dc dc' d1 c255 p by (auto simp: c1_def)
    qed
  qed
qed


lemma length_incr: "length (incr c) = length c"
proof -
  obtain c' r where e: "incr_loop 0 c = (c', r)" by (cases "incr_loop 0 c")
  from incr_loop_spec[OF _ e] have "length c' = length c" by simp
  then show ?thesis by (cases r) (simp_all add: incr_def e)
qed

lemma le_val_zeros: "le_val (map (\<lambda>_. 0) c) = 0"
  by (induction c) simp_all

lemma le_val_incr: "le_val (incr c) = (le_val c + 1) mod 256 ^ length c"
proof -
  obtain c' r where e: "incr_loop 0 c = (c', r)" by (cases "incr_loop 0 c")
  note s = incr_loop_spec[OF _ e]
  show ?thesis
  proof (cases r)
    case True
    then have "le_val c' = le_val c + 1" "length c' = length c" using s by simp_all
    moreover have "le_val c' < 256 ^ length c'" by (rule le_val_bound)
    ultimately show ?thesis using True by (simp add: incr_def e)
  next
    case False
    then have "le_val c + 1 = 256 ^ length c" using s by simp
    then show ?thesis using False by (simp add: incr_def e le_val_zeros)
  qed
qed

lemma le_val_inj: "length a = length b \<Longrightarrow> le_val a = le_val b \<Longrightarrow> a = b"
proof (induction a arbitrary: b)
  case Nil then show ?case by simp
next
  case (Cons x xs)
  then obtain y ys where b: "b = y # ys" by (cases b) auto
  have "unat x < 256" "unat y < 256" by (rule unat_byte_lt)+
  moreover have "unat x + 256 * le_val xs = unat y + 256 * le_val ys" using Cons.prems b by simp
  ultimately have "unat x = unat y \<and> le_val xs = le_val ys" by (rule pair_unique)
  then show ?case using Cons b by (simp add: word_unat_eq_iff)
qed

text \<open>
  C8. For every 16-byte counter \<open>c\<close>, \<open>incr\<close> yields the 16-byte little-endian encoding of
  \<open>(c + 1) mod 2^128\<close>, the carry running from byte 0 upward; the all-0xFF counter wraps
  to all zeros, and \<open>[0]\<close> goes to \<open>[1]\<close>, \<open>[255]\<close> to \<open>[0]\<close>, \<open>[255,0]\<close> to \<open>[0,1]\<close>,
  \<open>[255,255]\<close> to \<open>[0,0]\<close>, \<open>[255,255,0]\<close> to \<open>[0,0,1]\<close>.
\<close>

theorem incr_adds_one:
  "length c = 16 \<Longrightarrow>
     length (incr c) = 16 \<and>
     le_val (incr c) = (le_val c + 1) mod 2 ^ 128 \<and>
     incr (replicate 16 255) = replicate 16 0 \<and>
     incr [0] = [1] \<and> incr [255] = [0] \<and> incr [255, 0] = [0, 1] \<and>
     incr [255, 255] = [0, 0] \<and> incr [255, 255, 0] = [0, 0, 1]"
proof -
  assume l: "length c = 16"
  have p: "(256::nat) ^ 16 = 2 ^ 128" by simp
  have a: "length (incr c) = 16" using l by (simp add: length_incr)
  have b: "le_val (incr c) = (le_val c + 1) mod 2 ^ 128"
    using l p by (simp only: le_val_incr)
  have c1: "incr (replicate 16 255) = replicate 16 0" by code_simp
  have c2: "incr [0] = [1]" by code_simp
  have c3: "incr [255] = [0]" by code_simp
  have c4: "incr [255, 0] = [0, 1]" by code_simp
  have c5: "incr [255, 255] = [0, 0]" by code_simp
  have c6: "incr [255, 255, 0] = [0, 0, 1]" by code_simp
  show ?thesis using a b c1 c2 c3 c4 c5 c6 by blast
qed

theorem incr_adds_one_witness:
  "length (replicate 16 255 :: bytes) = 16 \<and>
   le_val (incr (replicate 16 255)) = (le_val (replicate 16 255) + 1) mod 2 ^ 128"
proof -
  have l: "length (replicate 16 255 :: bytes) = 16" by simp
  from incr_adds_one [OF l] l show ?thesis by blast
qed

end
